theory Spec2Isabelle
  imports Main
begin

section \<open>Data model\<close>

text \<open>
  A codeword is a Python list of integers (only 0 and 1 occur in the codes the enumerator
  builds), a code is a list of codewords, and the enumerator returns a list of codes.
  Insertion order is kept: the source works on lists throughout.
\<close>

type_synonym codeword = "int list"
type_synonym code = "codeword list"

text \<open>
  The exceptions a run can end with. \<open>IndexError\<close> is raised by an out-of-range list
  read or write (also the one inside \<open>table\<close> of no rows) and \<open>ValueError\<close> by \<open>max\<close> of
  an empty list or by a ragged list of matrix rows. \<open>EmptyCode\<close> is the failure kind named by the specification; no statement of
  the source raises it.
\<close>

datatype error = IndexError | ValueError | EmptyCode

section \<open>The enumerator \<open>make_induct_one_pierced\<close>\<close>

text \<open>
  \<^verbatim>\<open>
  inflate=[]
  for codeword in code:
      temp=list(codeword)
      temp.append(0)
      inflate.append(temp)
  \<close>
\<close>

fun inflate_loop :: "code \<Rightarrow> code \<Rightarrow> code" where
  "inflate_loop [] inflate = inflate"
| "inflate_loop (codeword # rest) inflate = inflate_loop rest (inflate @ [codeword @ [0]])"

text \<open>
  \<^verbatim>\<open>
  for d in code:
      new=list(d)
      new.append(1)
      newcode=list(inflate)
      newcode.append(new)
      zero_piercings.append(newcode)
  \<close>
\<close>

fun zero_loop :: "code \<Rightarrow> code \<Rightarrow> code list \<Rightarrow> code list" where
  "zero_loop inflate [] zero_piercings = zero_piercings"
| "zero_loop inflate (d # rest) zero_piercings =
     zero_loop inflate rest (zero_piercings @ [inflate @ [d @ [1]]])"

text \<open>
  \<^verbatim>\<open>
  chi=[]
  for codeword in code:
      if codeword[i]==1:
          chi.append(codeword)
  \<close>
  The read \<open>codeword[i]\<close> raises IndexError when \<open>i\<close> is not below the length of the
  codeword (\<open>i\<close> comes from \<open>range(0, n-1)\<close> and is never negative).
\<close>

fun chi_loop :: "nat \<Rightarrow> code \<Rightarrow> code \<Rightarrow> error + code" where
  "chi_loop i [] chi = Inr chi"
| "chi_loop i (codeword # rest) chi =
     (if i < length codeword
      then chi_loop i rest (if codeword ! i = 1 then chi @ [codeword] else chi)
      else Inl IndexError)"

text \<open>
  \<^verbatim>\<open>
  pairs=[]
  for codeword in chi:
      partner1=list(codeword)
      partner2=list(codeword)
      partner2[i]=0
      if partner2 in code:
          pairs.append((partner1, partner2))
  \<close>
\<close>

fun pairs_loop ::
  "nat \<Rightarrow> code \<Rightarrow> code \<Rightarrow> (codeword \<times> codeword) list \<Rightarrow> error + (codeword \<times> codeword) list"
where
  "pairs_loop i code [] pairs = Inr pairs"
| "pairs_loop i code (codeword # rest) pairs =
     (if i < length codeword
      then (let partner1 = codeword; partner2 = codeword[i := 0]
            in pairs_loop i code rest
                 (if partner2 \<in> set code then pairs @ [(partner1, partner2)] else pairs))
      else Inl IndexError)"

text \<open>
  \<^verbatim>\<open>
  for pair in pairs:
      pair[0].append(1)
      pair[1].append(1)
      newcode=list(inflate)
      newcode.extend([ pair[1], pair[0]])
      one_piercings.append(newcode)
  \<close>
  Both partners are fresh copies made in the loop before, so appending to them changes
  no codeword of \<open>code\<close> or of \<open>inflate\<close>.
\<close>

fun pierce_loop :: "code \<Rightarrow> (codeword \<times> codeword) list \<Rightarrow> code list \<Rightarrow> code list" where
  "pierce_loop inflate [] one_piercings = one_piercings"
| "pierce_loop inflate (pair # rest) one_piercings =
     pierce_loop inflate rest (one_piercings @ [inflate @ [snd pair @ [1], fst pair @ [1]]])"

text \<open>The loop \<open>for i in range (0, n-1)\<close>, run over the list of indices.\<close>

fun neuron_loop :: "code \<Rightarrow> code \<Rightarrow> nat list \<Rightarrow> code list \<Rightarrow> error + code list" where
  "neuron_loop code inflate [] one_piercings = Inr one_piercings"
| "neuron_loop code inflate (i # rest) one_piercings =
     (case chi_loop i code [] of
        Inl e \<Rightarrow> Inl e
      | Inr chi \<Rightarrow>
          (case pairs_loop i code chi [] of
             Inl e \<Rightarrow> Inl e
           | Inr pairs \<Rightarrow> neuron_loop code inflate rest (pierce_loop inflate pairs one_piercings)))"

text \<open>
  The loop \<open>for code in smaller_codes\<close>; its state is the pair of the two result lists.
  The index range \<open>range(0, n-1)\<close> is empty when \<open>n - 1 \<le> 0\<close>.
\<close>

fun code_loop ::
  "int \<Rightarrow> code list \<Rightarrow> code list \<Rightarrow> code list \<Rightarrow> error + (code list \<times> code list)"
where
  "code_loop n [] zero_piercings one_piercings = Inr (zero_piercings, one_piercings)"
| "code_loop n (code # rest) zero_piercings one_piercings =
     (let inflate = inflate_loop code [];
          zero_piercings' = zero_loop inflate code zero_piercings
      in case neuron_loop code inflate [0..<nat (n - 1)] one_piercings of
           Inl e \<Rightarrow> Inl e
         | Inr one_piercings' \<Rightarrow> code_loop n rest zero_piercings' one_piercings')"

text \<open>
  The recursion on \<open>n\<close> has no guard below 1: called with \<open>n < 1\<close> it never reaches the base
  case (Python ends such a run by exhausting its recursion depth). The model gives
  \<open>None\<close> for a call that does not return, \<open>Some (Inl e)\<close> for a call ended by the
  exception \<open>e\<close> and \<open>Some (Inr codes)\<close> for a call that returns \<open>codes\<close>.
\<close>

partial_function (option) make_induct_one_pierced :: "int \<Rightarrow> (error + code list) option" where
  "make_induct_one_pierced n =
     (if n = 1 then Some (Inr [[[0], [1]]])
      else Option.bind (make_induct_one_pierced (n - 1))
             (\<lambda>r. case r of
                    Inl e \<Rightarrow> Some (Inl e)
                  | Inr smaller_codes \<Rightarrow>
                      (case code_loop n smaller_codes [] [] of
                         Inl e \<Rightarrow> Some (Inl e)
                       | Inr (zero_piercings, one_piercings) \<Rightarrow>
                           Some (Inr (zero_piercings @ one_piercings)))))"

declare make_induct_one_pierced.simps [code]

text \<open>The value printed by the notebook for \<open>make_induct_one_pierced(3)\<close>.\<close>

definition documented_codes_3 :: "code list" where
  "documented_codes_3 =
    [[[0, 0, 0], [1, 0, 0], [0, 1, 0], [0, 0, 1]],
     [[0, 0, 0], [1, 0, 0], [0, 1, 0], [1, 0, 1]],
     [[0, 0, 0], [1, 0, 0], [0, 1, 0], [0, 1, 1]],
     [[0, 0, 0], [1, 0, 0], [1, 1, 0], [0, 0, 1]],
     [[0, 0, 0], [1, 0, 0], [1, 1, 0], [1, 0, 1]],
     [[0, 0, 0], [1, 0, 0], [1, 1, 0], [1, 1, 1]],
     [[0, 0, 0], [1, 0, 0], [0, 1, 0], [1, 1, 0], [0, 0, 1]],
     [[0, 0, 0], [1, 0, 0], [0, 1, 0], [1, 1, 0], [1, 0, 1]],
     [[0, 0, 0], [1, 0, 0], [0, 1, 0], [1, 1, 0], [0, 1, 1]],
     [[0, 0, 0], [1, 0, 0], [0, 1, 0], [1, 1, 0], [1, 1, 1]],
     [[0, 0, 0], [1, 0, 0], [0, 1, 0], [0, 0, 1], [1, 0, 1]],
     [[0, 0, 0], [1, 0, 0], [0, 1, 0], [0, 0, 1], [0, 1, 1]],
     [[0, 0, 0], [1, 0, 0], [1, 1, 0], [0, 0, 1], [1, 0, 1]],
     [[0, 0, 0], [1, 0, 0], [1, 1, 0], [1, 0, 1], [1, 1, 1]],
     [[0, 0, 0], [1, 0, 0], [0, 1, 0], [1, 1, 0], [0, 0, 1], [1, 0, 1]],
     [[0, 0, 0], [1, 0, 0], [0, 1, 0], [1, 1, 0], [0, 1, 1], [1, 1, 1]],
     [[0, 0, 0], [1, 0, 0], [0, 1, 0], [1, 1, 0], [0, 0, 1], [0, 1, 1]],
     [[0, 0, 0], [1, 0, 0], [0, 1, 0], [1, 1, 0], [1, 0, 1], [1, 1, 1]]]"

subsection \<open>The loops in closed form\<close>

text \<open>
  What one code on \<open>n - 1\<close> neurons adds to each of the two result lists, written with
  \<open>map\<close> and \<open>filter\<close>; the loops are proved equal to these below.
\<close>

definition inflate :: "code \<Rightarrow> code" where
  "inflate code = map (\<lambda>codeword. codeword @ [0]) code"

definition zero_piercings_of :: "code \<Rightarrow> code list" where
  "zero_piercings_of code = map (\<lambda>d. inflate code @ [d @ [1]]) code"

definition one_piercings_at :: "code \<Rightarrow> nat \<Rightarrow> code list" where
  "one_piercings_at code i =
     map (\<lambda>codeword. inflate code @ [codeword[i := 0] @ [1], codeword @ [1]])
       (filter (\<lambda>codeword. codeword[i := 0] \<in> set code)
          (filter (\<lambda>codeword. codeword ! i = 1) code))"

definition one_piercings_of :: "nat \<Rightarrow> code \<Rightarrow> code list" where
  "one_piercings_of k code = concat (map (one_piercings_at code) [0..<k])"

text \<open>The codes on \<open>k + 1\<close> neurons, by recursion on \<open>k\<close>.\<close>

primrec pierced :: "nat \<Rightarrow> code list" where
  "pierced 0 = [[[0], [1]]]"
| "pierced (Suc k) =
     concat (map zero_piercings_of (pierced k)) @
     concat (map (one_piercings_of (Suc k)) (pierced k))"

text \<open>
  What every enumerated code on \<open>m\<close> neurons satisfies: it is not empty, its codewords
  have length \<open>m\<close> and are pairwise distinct, and its first codeword is all zero.
\<close>

definition good_code :: "nat \<Rightarrow> code \<Rightarrow> bool" where
  "good_code m code \<longleftrightarrow>
     code \<noteq> [] \<and> list_all (\<lambda>w. length w = m) code \<and> distinct code \<and> hd code = replicate m 0"

section \<open>The formatter\<close>

subsection \<open>Python's list indexing and \<open>max\<close>\<close>

text \<open>
  \<open>xs[i]\<close>: an index below zero counts from the end, and an index outside the list raises
  IndexError.
\<close>

definition getitem :: "'a list \<Rightarrow> int \<Rightarrow> error + 'a" where
  "getitem xs i =
     (if 0 \<le> i \<and> i < int (length xs) then Inr (xs ! nat i)
      else if i < 0 \<and> - int (length xs) \<le> i then Inr (xs ! nat (int (length xs) + i))
      else Inl IndexError)"

text \<open>\<open>max(xs)\<close>: ValueError on the empty list, otherwise one pass keeping the largest.\<close>

fun max_loop :: "int list \<Rightarrow> int \<Rightarrow> int" where
  "max_loop [] best = best"
| "max_loop (x # rest) best = max_loop rest (if best < x then x else best)"

definition py_max :: "int list \<Rightarrow> error + int" where
  "py_max xs = (case xs of [] \<Rightarrow> Inl ValueError | x # rest \<Rightarrow> Inr (max_loop rest x))"

subsection \<open>\<open>str\<close> of an integer\<close>

definition digit_char :: "nat \<Rightarrow> char" where
  "digit_char d = ''0123456789'' ! d"

fun str_nat :: "nat \<Rightarrow> string" where
  "str_nat n = (if n < 10 then [digit_char n] else str_nat (n div 10) @ [digit_char (n mod 10)])"

declare str_nat.simps [simp del]

definition str :: "int \<Rightarrow> string" where
  "str i = (if i < 0 then CHR ''-'' # str_nat (nat (- i)) else str_nat (nat i))"

subsection \<open>\<open>reverse_code\<close>\<close>

text \<open>
  \<^verbatim>\<open>
  def reverse_code(code):
      results = [code[0]]
      for i in range (0, len(code)-1):
          results.append(code[len(code)-1-i])
      return results
  \<close>
\<close>

fun reverse_code_loop :: "'a list \<Rightarrow> nat list \<Rightarrow> 'a list \<Rightarrow> error + 'a list" where
  "reverse_code_loop code [] results = Inr results"
| "reverse_code_loop code (i # rest) results =
     (case getitem code (int (length code) - 1 - int i) of
        Inl e \<Rightarrow> Inl e
      | Inr x \<Rightarrow> reverse_code_loop code rest (results @ [x]))"

definition reverse_code :: "'a list \<Rightarrow> error + 'a list" where
  "reverse_code code =
     (case getitem code 0 of
        Inl e \<Rightarrow> Inl e
      | Inr first \<Rightarrow> reverse_code_loop code [0..<nat (int (length code) - 1)] [first])"

subsection \<open>Matrices\<close>

text \<open>
  Modelled from the spec: the matrix type of the external algebra system, with the three
  operations the source calls on it (\<open>matrix(rows)\<close>, \<open>.transpose()\<close>, \<open>.columns()\<close>); none
  of them is in the repository. A matrix is a rectangular array given by its rows.
  \<open>matrix\<close> of the empty list is the matrix with no rows and no columns, and a list of rows
  of different lengths is refused.
\<close>

record sage_matrix =
  nrows :: nat
  ncols :: nat
  rows :: "int list list"

definition matrix :: "int list list \<Rightarrow> error + sage_matrix" where
  "matrix rs =
     (case rs of
        [] \<Rightarrow> Inr \<lparr>nrows = 0, ncols = 0, rows = []\<rparr>
      | r # _ \<Rightarrow>
          if list_all (\<lambda>r'. length r' = length r) rs
          then Inr \<lparr>nrows = length rs, ncols = length r, rows = rs\<rparr>
          else Inl ValueError)"

definition columns :: "sage_matrix \<Rightarrow> int list list" where
  "columns m = map (\<lambda>j. map (\<lambda>r. r ! j) (rows m)) [0..<ncols m]"

definition transpose_matrix :: "sage_matrix \<Rightarrow> sage_matrix" where
  "transpose_matrix m = \<lparr>nrows = ncols m, ncols = nrows m, rows = columns m\<rparr>"

subsection \<open>\<open>make_variable_names_from_matrix\<close>\<close>

text \<open>
  \<^verbatim>\<open>
  def make_variable_names_from_matrix(mat):
      names = ''
      for col in mat.columns():
          name = 'y'
          for position in col:
              name=name+(str(position))
          names=names+name+ ','
      return names[:-1]
  \<close>
  The slice \<open>names[:-1]\<close> drops the last character and is the empty string on the empty
  string.
\<close>

fun name_loop :: "int list \<Rightarrow> string \<Rightarrow> string" where
  "name_loop [] name = name"
| "name_loop (position # rest) name = name_loop rest (name @ str position)"

fun names_loop :: "int list list \<Rightarrow> string \<Rightarrow> string" where
  "names_loop [] names = names"
| "names_loop (col # rest) names = names_loop rest (names @ name_loop col ''y'' @ '','')"

definition make_variable_names_from_matrix :: "sage_matrix \<Rightarrow> string" where
  "make_variable_names_from_matrix mat = butlast (names_loop (columns mat) [])"

text \<open>
  The naming rule in the specification's words: one name per column, the letter \<open>y\<close>
  followed by the column's bits as digit characters, the names joined with commas.
\<close>

definition bit_digit :: "int \<Rightarrow> char" where
  "bit_digit b = (if b = 1 then CHR ''1'' else CHR ''0'')"

fun join_commas :: "string list \<Rightarrow> string" where
  "join_commas [] = []"
| "join_commas [name] = name"
| "join_commas (name # names) = name @ '','' @ join_commas names"

definition spec_make_variable_names :: "int list list \<Rightarrow> string" where
  "spec_make_variable_names cols = join_commas (map (\<lambda>col. CHR ''y'' # map bit_digit col) cols)"

text \<open>The matrix of the notebook's first cell, before the transposition.\<close>

definition documented_rows :: "int list list" where
  "documented_rows =
     [[0,0,0,1], [0,0,1,1], [0,0,1,0], [0,1,1,0], [0,1,0,0], [1,1,0,0], [1,0,0,0]]"

subsection \<open>\<open>make_table_toric_degrees\<close>\<close>

text \<open>
  The external algebra system is a parameter: the toric ideal of a matrix with named
  variables (which may fail), the generators of an ideal, the degree of a polynomial, and
  the Groebner basis of an ideal.
\<close>

record ('ideal, 'poly, 'basis) algebra =
  ToricIdeal :: "sage_matrix \<Rightarrow> string \<Rightarrow> error + 'ideal"
  gens :: "'ideal \<Rightarrow> 'poly list"
  degree :: "'poly \<Rightarrow> int"
  groebner_basis :: "'ideal \<Rightarrow> 'basis"

text \<open>A table row is the three-element list \<open>[mat, groebner_basis, max(degrees)]\<close>.\<close>

type_synonym 'basis table_row = "sage_matrix \<times> 'basis \<times> int"

text \<open>The first statement of the loop body: \<open>mat=matrix(reverse_code(code)[1:]).transpose()\<close>.\<close>

definition code_matrix :: "code \<Rightarrow> error + sage_matrix" where
  "code_matrix code =
     (case reverse_code code of
        Inl e \<Rightarrow> Inl e
      | Inr reversed \<Rightarrow>
          (case matrix (drop 1 reversed) of
             Inl e \<Rightarrow> Inl e
           | Inr m \<Rightarrow> Inr (transpose_matrix m)))"

text \<open>
  \<^verbatim>\<open>
  for code in code_list:
      mat=matrix(reverse_code(code)[1:]).transpose()
      toric_ideal=ToricIdeal(mat, make_variable_names_from_matrix(mat))
      toric_ideals.append(toric_ideal)
      degrees = list(map(lambda x: x.degree(), toric_ideal.gens()))
      if degrees !=[-1]:
          clean.append([mat, toric_ideal.groebner_basis(), max(degrees)])
  \<close>
  The lists \<open>matrices\<close>, \<open>toric_ideals\<close> and \<open>nice_formatting\<close> are never read, so
  the state of the loop is \<open>clean\<close> alone.
\<close>

fun table_loop ::
  "('ideal, 'poly, 'basis) algebra \<Rightarrow> code list \<Rightarrow> 'basis table_row list \<Rightarrow>
     error + 'basis table_row list"
where
  "table_loop alg [] clean = Inr clean"
| "table_loop alg (code # rest) clean =
     (case code_matrix code of
        Inl e \<Rightarrow> Inl e
      | Inr mat \<Rightarrow>
          (case ToricIdeal alg mat (make_variable_names_from_matrix mat) of
             Inl e \<Rightarrow> Inl e
           | Inr toric_ideal \<Rightarrow>
               (let degrees = map (degree alg) (gens alg toric_ideal) in
                if degrees \<noteq> [- 1]
                then (case py_max degrees of
                        Inl e \<Rightarrow> Inl e
                      | Inr d \<Rightarrow>
                          table_loop alg rest
                            (clean @ [(mat, groebner_basis alg toric_ideal, d)]))
                else table_loop alg rest clean)))"

text \<open>
  Modelled from the spec: the display collaborator \<open>table\<close>, which is not in the
  repository. It consumes the sequence of rows and holds them in their order; it reads the
  first row to lay the columns out, so on the empty sequence of rows it raises IndexError.
\<close>

definition table :: "'row list \<Rightarrow> error + 'row list" where
  "table rows' = (case rows' of [] \<Rightarrow> Inl IndexError | _ # _ \<Rightarrow> Inr rows')"

text \<open>
  \<^verbatim>\<open>
  def make_table_toric_degrees(code_list):
      ...
      clean = []
      for code in code_list:
          ...
      return table(clean)
  \<close>
\<close>

definition make_table_toric_degrees ::
  "('ideal, 'poly, 'basis) algebra \<Rightarrow> code list \<Rightarrow> error + 'basis table_row list"
where
  "make_table_toric_degrees alg code_list =
     (case table_loop alg code_list [] of
        Inl e \<Rightarrow> Inl e
      | Inr clean \<Rightarrow> table clean)"

text \<open>
  The table in the specification's words: \<open>compute_toric_record\<close> gives for one code
  either no row (degree list exactly \<open>[-1]\<close>) or the row of its matrix, its Groebner basis
  and the maximum of its degree list; \<open>make_table\<close> applies it to every code and keeps the
  rows in input order. A failure of a step is passed on to the caller. The specification
  leaves the display out, so \<open>spec_make_table\<close> returns the sequence of rows itself, also
  when it is empty.
\<close>

definition spec_compute_toric_record ::
  "('ideal, 'poly, 'basis) algebra \<Rightarrow> code \<Rightarrow> error + 'basis table_row option"
where
  "spec_compute_toric_record alg code =
     (case code_matrix code of
        Inl e \<Rightarrow> Inl e
      | Inr mat \<Rightarrow>
          (case ToricIdeal alg mat (make_variable_names_from_matrix mat) of
             Inl e \<Rightarrow> Inl e
           | Inr toric_ideal \<Rightarrow>
               (let degrees = map (degree alg) (gens alg toric_ideal) in
                if degrees = [- 1] then Inr None
                else (case py_max degrees of
                        Inl e \<Rightarrow> Inl e
                      | Inr d \<Rightarrow> Inr (Some (mat, groebner_basis alg toric_ideal, d))))))"

fun spec_make_table ::
  "('ideal, 'poly, 'basis) algebra \<Rightarrow> code list \<Rightarrow> error + 'basis table_row list"
where
  "spec_make_table alg [] = Inr []"
| "spec_make_table alg (code # rest) =
     (case spec_compute_toric_record alg code of
        Inl e \<Rightarrow> Inl e
      | Inr result \<Rightarrow>
          (case spec_make_table alg rest of
             Inl e \<Rightarrow> Inl e
           | Inr kept \<Rightarrow> Inr (case result of None \<Rightarrow> kept | Some row \<Rightarrow> row # kept)))"

text \<open>
  A stand-in algebra system for concrete runs: the ideal is the number of columns of the
  matrix, a polynomial is its own degree, and a matrix with fewer than three columns has
  the degree list \<open>[-1]\<close>.
\<close>

definition toy_algebra :: "(nat, int, nat) algebra" where
  "toy_algebra =
     \<lparr>ToricIdeal = (\<lambda>mat names. Inr (ncols mat)),
      gens = (\<lambda>k. if k < 3 then [- 1] else [2, 1]),
      degree = (\<lambda>p. p),
      groebner_basis = (\<lambda>k. k)\<rparr>"

section \<open>Properties of the enumerator\<close>

subsection \<open>The loops equal their closed forms\<close>

lemma inflate_loop_eq: "inflate_loop code acc = acc @ inflate code"
  by (induction code arbitrary: acc) (simp_all add: inflate_def)

lemma zero_loop_eq:
  "zero_loop infl code acc = acc @ map (\<lambda>d. infl @ [d @ [1]]) code"
  by (induction code arbitrary: acc) simp_all

lemma chi_loop_eq:
  "list_all (\<lambda>w. i < length w) code \<Longrightarrow>
   chi_loop i code acc = Inr (acc @ filter (\<lambda>w. w ! i = 1) code)"
  by (induction code arbitrary: acc) simp_all

lemma pairs_loop_eq:
  "list_all (\<lambda>w. i < length w) chi \<Longrightarrow>
   pairs_loop i code chi acc =
     Inr (acc @ map (\<lambda>w. (w, w[i := 0])) (filter (\<lambda>w. w[i := 0] \<in> set code) chi))"
  by (induction chi arbitrary: acc) (simp_all add: Let_def)

lemma pierce_loop_eq:
  "pierce_loop infl pairs acc = acc @ map (\<lambda>p. infl @ [snd p @ [1], fst p @ [1]]) pairs"
  by (induction pairs arbitrary: acc) simp_all

lemma neuron_loop_eq:
  "list_all (\<lambda>i. list_all (\<lambda>w. i < length w) code) idxs \<Longrightarrow>
   neuron_loop code (inflate code) idxs acc =
     Inr (acc @ concat (map (one_piercings_at code) idxs))"
proof (induction idxs arbitrary: acc)
  case Nil
  then show ?case by simp
next
  case (Cons i rest)
  from Cons.prems have here: "list_all (\<lambda>w. i < length w) code"
    and later: "list_all (\<lambda>i. list_all (\<lambda>w. i < length w) code) rest"
    by simp_all
  have chi_ok: "list_all (\<lambda>w. i < length w) (filter (\<lambda>w. w ! i = 1) code)"
    using here by (simp add: list_all_iff)
  show ?case
    by (simp add: chi_loop_eq [OF here] pairs_loop_eq [OF chi_ok] pierce_loop_eq
        Cons.IH [OF later] one_piercings_at_def comp_def)
qed

lemma code_loop_eq:
  "list_all (list_all (\<lambda>w. int (length w) = n - 1)) codes \<Longrightarrow>
   code_loop n codes zs os =
     Inr (zs @ concat (map zero_piercings_of codes),
          os @ concat (map (one_piercings_of (nat (n - 1))) codes))"
proof (induction codes arbitrary: zs os)
  case Nil
  then show ?case by simp
next
  case (Cons code rest)
  from Cons.prems have len: "list_all (\<lambda>w. int (length w) = n - 1) code"
    and later: "list_all (list_all (\<lambda>w. int (length w) = n - 1)) rest"
    by simp_all
  have idx: "list_all (\<lambda>i. list_all (\<lambda>w. i < length w) code) [0..<nat (n - 1)]"
    using len by (auto simp: list_all_iff)
  show ?case
    by (simp add: Let_def inflate_loop_eq neuron_loop_eq [OF idx] zero_loop_eq
        Cons.IH [OF later] zero_piercings_of_def one_piercings_of_def)
qed

subsection \<open>Invariants of the enumerated codes\<close>

lemma inflate_props:
  assumes "good_code m code"
  shows "inflate code \<noteq> []"
    and "list_all (\<lambda>w. length w = Suc m) (inflate code)"
    and "distinct (inflate code)"
    and "hd (inflate code) = replicate (Suc m) 0"
    and "w @ [1] \<notin> set (inflate code)"
proof -
  from assms have ne: "code \<noteq> []" and len: "list_all (\<lambda>w. length w = m) code"
    and dist: "distinct code" and first: "hd code = replicate m 0"
    by (simp_all add: good_code_def)
  show "inflate code \<noteq> []" using ne by (simp add: inflate_def)
  show "list_all (\<lambda>w. length w = Suc m) (inflate code)"
    using len by (simp add: inflate_def list_all_iff)
  show "distinct (inflate code)"
    using dist by (simp add: inflate_def distinct_map inj_on_def)
  show "hd (inflate code) = replicate (Suc m) 0"
    using ne first by (simp add: inflate_def hd_map replicate_append_same)
  show "w @ [1] \<notin> set (inflate code)"
    by (auto simp: inflate_def)
qed

lemma good_code_extend:
  assumes "good_code m code" and "list_all (\<lambda>w. length w = m) new" and "distinct new"
  shows "good_code (Suc m) (inflate code @ map (\<lambda>w. w @ [1]) new)"
proof -
  note p = inflate_props [OF assms(1)]
  have "distinct (map (\<lambda>w. w @ [1::int]) new)"
    using assms(3) by (simp add: distinct_map inj_on_def)
  moreover have "set (inflate code) \<inter> set (map (\<lambda>w. w @ [1]) new) = {}"
    using p(5) by auto
  ultimately have "distinct (inflate code @ map (\<lambda>w. w @ [1]) new)"
    using p(3) by simp
  moreover have "list_all (\<lambda>w. length w = Suc m) (inflate code @ map (\<lambda>w. w @ [1]) new)"
    using p(2) assms(2) by (auto simp: list_all_iff)
  ultimately show ?thesis
    using p(1) p(4) by (simp add: good_code_def)
qed

lemma good_zero_piercing:
  assumes "good_code m code" and "c \<in> set (zero_piercings_of code)"
  shows "good_code (Suc m) c"
proof -
  from assms(2) obtain d where d: "d \<in> set code" and c: "c = inflate code @ [d @ [1]]"
    by (auto simp: zero_piercings_of_def)
  from assms(1) d have "list_all (\<lambda>w. length w = m) [d]"
    by (simp add: good_code_def list_all_iff)
  from good_code_extend [OF assms(1) this] c show ?thesis by simp
qed

lemma good_one_piercing:
  assumes "good_code m code" and "c \<in> set (one_piercings_of m code)"
  shows "good_code (Suc m) c"
proof -
  from assms(2) obtain i w where i: "i < m" and w: "w \<in> set code" and one: "w ! i = 1"
    and c: "c = inflate code @ [w[i := 0] @ [1], w @ [1]]"
    by (auto simp: one_piercings_of_def one_piercings_at_def)
  from assms(1) w have len: "length w = m"
    by (simp add: good_code_def list_all_iff)
  have "w[i := 0] ! i \<noteq> w ! i" using i len one by simp
  then have "w[i := 0] \<noteq> w" by metis
  then have "list_all (\<lambda>v. length v = m) [w[i := 0], w]" and "distinct [w[i := 0], w]"
    using len by simp_all
  from good_code_extend [OF assms(1) this] c show ?thesis by simp
qed

lemma pierced_good: "list_all (good_code (Suc k)) (pierced k)"
proof (induction k)
  case 0
  show ?case by (simp add: good_code_def)
next
  case (Suc k)
  then show ?case
    by (auto simp: list_all_iff intro: good_zero_piercing good_one_piercing)
qed

lemma make_induct_one_pierced_step:
  assumes "n \<noteq> 1"
    and "make_induct_one_pierced (n - 1) = Some (Inr smaller_codes)"
    and "list_all (list_all (\<lambda>w. int (length w) = n - 1)) smaller_codes"
  shows "make_induct_one_pierced n =
           Some (Inr (concat (map zero_piercings_of smaller_codes) @
                      concat (map (one_piercings_of (nat (n - 1))) smaller_codes)))"
  by (subst make_induct_one_pierced.simps) (simp add: assms(1,2) code_loop_eq [OF assms(3)])

lemma make_induct_one_pierced_Suc:
  "make_induct_one_pierced (int (Suc k)) = Some (Inr (pierced k))"
proof (induction k)
  case 0
  show ?case by (simp add: make_induct_one_pierced.simps)
next
  case (Suc k)
  have len: "list_all (list_all (\<lambda>w. int (length w) = int (Suc (Suc k)) - 1)) (pierced k)"
    using pierced_good [of k] by (simp add: list_all_iff good_code_def)
  have rec: "make_induct_one_pierced (int (Suc (Suc k)) - 1) = Some (Inr (pierced k))"
    using Suc.IH by simp
  have ne: "int (Suc (Suc k)) \<noteq> 1" by simp
  have idx: "nat (int (Suc (Suc k)) - 1) = Suc k" by simp
  show ?case
    using make_induct_one_pierced_step [OF ne rec len] unfolding idx by simp
qed

lemma make_induct_one_pierced_pos:
  "1 \<le> n \<Longrightarrow> make_induct_one_pierced n = Some (Inr (pierced (nat (n - 1))))"
  using make_induct_one_pierced_Suc [of "nat (n - 1)"] by simp

lemma make_induct_one_pierced_good:
  assumes "1 \<le> n"
  shows "\<exists>codes. make_induct_one_pierced n = Some (Inr codes) \<and>
           list_all (good_code (nat n)) codes"
  using make_induct_one_pierced_pos [OF assms] pierced_good [of "nat (n - 1)"] assms
  by (simp add: Suc_nat_eq_nat_zadd1)

text \<open>A call returns, normally or with an exception, only for \<open>n \<ge> 1\<close>.\<close>

lemma make_induct_one_pierced_returns_only_pos:
  "make_induct_one_pierced n = Some r \<Longrightarrow> 1 \<le> n"
proof (rule make_induct_one_pierced.raw_induct [where P = "\<lambda>n r. 1 \<le> n"])
  show "make_induct_one_pierced n = Some r" if "make_induct_one_pierced n = Some r"
    by (rule that)
next
  fix f :: "int \<Rightarrow> (error + code list) option" and m r'
  assume IH: "\<And>x y. f x = Some y \<Longrightarrow> 1 \<le> x"
    and unfolded: "(if m = 1 then Some (Inr [[[0], [1]]])
      else Option.bind (f (m - 1))
            (\<lambda>r. case r of Inl e \<Rightarrow> Some (Inl e)
                 | Inr smaller_codes \<Rightarrow>
                     case code_loop m smaller_codes [] [] of
                     Inl e \<Rightarrow> Some (Inl e)
                     | Inr (zero_piercings, one_piercings) \<Rightarrow>
                         Some (Inr (zero_piercings @ one_piercings)))) = Some r'"
  show "1 \<le> m"
  proof (cases "m = 1")
    case True
    then show ?thesis by simp
  next
    case False
    with unfolded obtain y where "f (m - 1) = Some y"
      by (auto split: bind_splits)
    then have "1 \<le> m - 1" by (rule IH)
    then show ?thesis by simp
  qed
qed

lemma make_induct_one_pierced_2:
  "make_induct_one_pierced 2 =
     Some (Inr [[[0, 0], [1, 0], [0, 1]], [[0, 0], [1, 0], [1, 1]],
                [[0, 0], [1, 0], [0, 1], [1, 1]]])"
  by code_simp

section \<open>Properties of the formatter\<close>

subsection \<open>\<open>reverse_code\<close> in closed form\<close>

lemma getitem_nat: "i < length xs \<Longrightarrow> getitem xs (int i) = Inr (xs ! i)"
  by (simp add: getitem_def)

lemma reverse_code_loop_eq:
  "list_all (\<lambda>i. i < length code - 1) idxs \<Longrightarrow>
   reverse_code_loop code idxs acc =
     Inr (acc @ map (\<lambda>i. code ! (length code - 1 - i)) idxs)"
proof (induction idxs arbitrary: acc)
  case Nil
  show ?case by simp
next
  case (Cons i rest)
  from Cons.prems have i: "i < length code - 1"
    and later: "list_all (\<lambda>i. i < length code - 1) rest"
    by simp_all
  have pos: "int (length code) - 1 - int i = int (length code - 1 - i)"
    using i by linarith
  have "getitem code (int (length code) - 1 - int i) = Inr (code ! (length code - 1 - i))"
    unfolding pos using i by (intro getitem_nat) linarith
  then show ?case
    by (simp add: Cons.IH [OF later])
qed

lemma rev_tl_by_index:
  "map (\<lambda>i. code ! (length code - 1 - i)) [0..<length code - 1] = rev (tl code)"
proof (rule nth_equalityI)
  show "length (map (\<lambda>i. code ! (length code - 1 - i)) [0..<length code - 1]) =
        length (rev (tl code))"
    by simp
next
  fix i
  assume "i < length (map (\<lambda>i. code ! (length code - 1 - i)) [0..<length code - 1])"
  then have i: "i < length code - 1" by simp
  then have "rev (tl code) ! i = tl code ! (length code - 1 - Suc i)"
    by (simp add: rev_nth)
  also have "\<dots> = code ! Suc (length code - 1 - Suc i)"
    using i by (simp add: nth_tl)
  also have "Suc (length code - 1 - Suc i) = length code - 1 - i"
    using i by linarith
  finally show "map (\<lambda>i. code ! (length code - 1 - i)) [0..<length code - 1] ! i =
                rev (tl code) ! i"
    using i by simp
qed

lemma reverse_code_eq:
  "reverse_code code = (if code = [] then Inl IndexError else Inr (hd code # rev (tl code)))"
proof (cases "code = []")
  case True
  then show ?thesis by (simp add: reverse_code_def getitem_def)
next
  case False
  then have first: "getitem code 0 = Inr (hd code)"
    by (simp add: getitem_def hd_conv_nth)
  have range: "nat (int (length code) - 1) = length code - 1"
    by linarith
  have idx: "list_all (\<lambda>i. i < length code - 1) [0..<length code - 1]"
    by (simp add: list_all_iff)
  have "reverse_code code = reverse_code_loop code [0..<length code - 1] [hd code]"
    by (simp only: reverse_code_def first range sum.case)
  also have "\<dots> = Inr ([hd code] @ map (\<lambda>i. code ! (length code - 1 - i)) [0..<length code - 1])"
    by (rule reverse_code_loop_eq [OF idx])
  also have "\<dots> = Inr (hd code # rev (tl code))"
    by (simp only: rev_tl_by_index) simp
  finally show ?thesis
    using False by simp
qed

subsection \<open>Variable names\<close>

lemma name_loop_eq: "name_loop col acc = acc @ concat (map str col)"
  by (induction col arbitrary: acc) simp_all

lemma names_loop_eq:
  "names_loop cols acc = acc @ concat (map (\<lambda>col. (CHR ''y'' # concat (map str col)) @ '','') cols)"
  by (induction cols arbitrary: acc) (simp_all add: name_loop_eq)

lemma str_bit: "b = 0 \<or> b = 1 \<Longrightarrow> str b = [bit_digit b]"
  by (auto simp: str_def bit_digit_def str_nat.simps digit_char_def)

lemma str_bits: "list_all (\<lambda>b. b = 0 \<or> b = 1) col \<Longrightarrow> concat (map str col) = map bit_digit col"
  by (induction col) (simp_all add: str_bit)

lemma butlast_joined:
  "butlast (concat (map (\<lambda>name. name @ '','') names)) = join_commas names"
proof (induction names rule: join_commas.induct)
  case 1
  show ?case by simp
next
  case (2 name)
  show ?case by (simp add: butlast_append)
next
  case (3 name v va)
  then show ?case by (simp add: butlast_append)
qed

lemma make_variable_names_joined_str:
  "make_variable_names_from_matrix mat =
     join_commas (map (\<lambda>col. CHR ''y'' # concat (map str col)) (columns mat))"
proof -
  have "map (\<lambda>col. (CHR ''y'' # concat (map str col)) @ '','') (columns mat) =
        map (\<lambda>name. name @ '','') (map (\<lambda>col. CHR ''y'' # concat (map str col)) (columns mat))"
    by (simp add: comp_def)
  then have "make_variable_names_from_matrix mat =
      butlast (concat (map (\<lambda>name. name @ '','')
                 (map (\<lambda>col. CHR ''y'' # concat (map str col)) (columns mat))))"
    by (simp only: make_variable_names_from_matrix_def names_loop_eq append_Nil)
  then show ?thesis by (simp only: butlast_joined)
qed

lemma names_of_bits:
  "list_all (list_all (\<lambda>b. b = 0 \<or> b = 1)) cols \<Longrightarrow>
   map (\<lambda>col. (CHR ''y'' # concat (map str col)) @ '','') cols =
     map (\<lambda>name. name @ '','') (map (\<lambda>col. CHR ''y'' # map bit_digit col) cols)"
  by (induction cols) (simp_all add: str_bits)

lemma make_variable_names_eq:
  assumes "list_all (list_all (\<lambda>b. b = 0 \<or> b = 1)) (columns mat)"
  shows "make_variable_names_from_matrix mat = spec_make_variable_names (columns mat)"
proof -
  have "make_variable_names_from_matrix mat =
      butlast (concat (map (\<lambda>name. name @ '','')
                 (map (\<lambda>col. CHR ''y'' # map bit_digit col) (columns mat))))"
    by (simp only: make_variable_names_from_matrix_def names_loop_eq
        names_of_bits [OF assms] append_Nil)
  also have "\<dots> = join_commas (map (\<lambda>col. CHR ''y'' # map bit_digit col) (columns mat))"
    by (rule butlast_joined)
  finally show ?thesis by (simp add: spec_make_variable_names_def)
qed

lemma documented_names:
  "map_sum id (\<lambda>m. make_variable_names_from_matrix (transpose_matrix m)) (matrix documented_rows) =
     Inr ''y0001,y0011,y0010,y0110,y0100,y1100,y1000''"
  by code_simp

subsection \<open>The matrix of a code with fewer than two codewords\<close>

lemma code_matrix_single:
  "code_matrix [c] = Inr \<lparr>nrows = 0, ncols = 0, rows = []\<rparr>"
  by (simp add: code_matrix_def reverse_code_def getitem_def matrix_def transpose_matrix_def
      columns_def)

lemma code_matrix_empty: "code_matrix [] = Inl IndexError"
  by (simp add: code_matrix_def reverse_code_def getitem_def)

lemma code_matrix_error:
  "code_matrix code = Inl e \<Longrightarrow> e = IndexError \<or> e = ValueError"
  by (auto simp: code_matrix_def reverse_code_eq matrix_def
      split: if_splits sum.splits list.splits)

lemma names_of_empty_matrix:
  "make_variable_names_from_matrix \<lparr>nrows = 0, ncols = 0, rows = []\<rparr> = ''''"
  by (simp add: make_variable_names_from_matrix_def columns_def)

subsection \<open>The table loop\<close>

lemma max_loop_fold: "max_loop xs best = fold max xs best"
  by (induction xs arbitrary: best) (simp_all add: max_def)

lemma py_max_eq:
  assumes "xs \<noteq> []"
  shows "py_max xs = Inr (Max (set xs))"
proof -
  from assms obtain x rest where xs: "xs = x # rest"
    by (cases xs) simp_all
  have "py_max xs = Inr (fold max rest x)"
    by (simp add: xs py_max_def max_loop_fold)
  also have "fold max rest x = Max (set (x # rest))"
    by (simp only: Max.set_eq_fold)
  finally show ?thesis by (simp only: xs)
qed

lemma table_loop_eq:
  "table_loop alg code_list clean =
     (case spec_make_table alg code_list of
        Inl e \<Rightarrow> Inl e
      | Inr kept \<Rightarrow> Inr (clean @ kept))"
proof (induction code_list arbitrary: clean)
  case Nil
  show ?case by simp
next
  case (Cons code rest)
  show ?case
    by (simp add: Cons.IH spec_compute_toric_record_def Let_def split: sum.splits)
qed

lemma make_table_eq:
  "make_table_toric_degrees alg code_list =
     (case spec_make_table alg code_list of
        Inl e \<Rightarrow> Inl e
      | Inr kept \<Rightarrow> if kept = [] then Inl IndexError else Inr kept)"
  by (simp add: make_table_toric_degrees_def table_loop_eq table_def
      split: sum.splits list.splits)

lemma toy_table_all_discarded:
  "spec_make_table toy_algebra [[[0], [1]]] = Inr []"
  by code_simp

lemma toy_table:
  "spec_make_table toy_algebra [[[0, 0], [1, 0], [0, 1]], [[0, 0], [1, 0], [0, 1], [1, 1]]] =
     Inr [(\<lparr>nrows = 2, ncols = 3, rows = [[1, 0, 1], [1, 1, 0]]\<rparr>, 3, 2)]"
  by code_simp

section \<open>Results\<close>

text \<open>
  Claim C1 (as amended). Applied to \<open>n = 1\<close> the enumerator returns exactly one code, and
  that code holds the two codewords \<open>[0]\<close> and \<open>[1]\<close> in this order.
\<close>

theorem make_induct_one_pierced_base:
  "make_induct_one_pierced 1 = Some (Inr [[[0], [1]]])"
  by (simp add: make_induct_one_pierced.simps)

text \<open>
  Claim C1 (as stated) fails: the value returned for \<open>n = 1\<close> is not the two-element
  sequence of the single-codeword codes \<open>[[0]]\<close> and \<open>[[1]]\<close>.
\<close>

theorem make_induct_one_pierced_base_not_two_codes:
  "make_induct_one_pierced 1 \<noteq> Some (Inr [[[0]], [[1]]])"
  by (simp add: make_induct_one_pierced.simps)

text \<open>
  Claim C2. Applied to \<open>n = 3\<close> the enumerator returns the list printed in the notebook,
  which has exactly 18 codes.
\<close>

theorem make_induct_one_pierced_3:
  "make_induct_one_pierced 3 = Some (Inr documented_codes_3) \<and> length documented_codes_3 = 18"
proof
  show "make_induct_one_pierced 3 = Some (Inr documented_codes_3)"
    by code_simp
  show "length documented_codes_3 = 18"
    by (simp add: documented_codes_3_def)
qed

text \<open>
  Claim C3 (as amended). The construction of the matrix and of the variable names never
  fails with \<open>EmptyCode\<close>, whatever the code. On a code with fewer than two codewords:
  with one codeword the construction succeeds, giving the matrix without rows and columns
  and the empty string of names, and on the empty code it ends with the IndexError of
  \<open>code[0]\<close> in \<open>reverse_code\<close>.
\<close>

theorem short_code_no_EmptyCode:
  "code_matrix code \<noteq> Inl EmptyCode \<and>
   map_sum id (\<lambda>mat. (mat, make_variable_names_from_matrix mat)) (code_matrix code) \<noteq>
     Inl EmptyCode \<and>
   (length code < 2 \<longrightarrow>
      map_sum id (\<lambda>mat. (mat, make_variable_names_from_matrix mat)) (code_matrix code) =
        (if code = [] then Inl IndexError
         else Inr (\<lparr>nrows = 0, ncols = 0, rows = []\<rparr>, '''')))"
proof (intro conjI impI)
  show never: "code_matrix code \<noteq> Inl EmptyCode"
    using code_matrix_error [of code EmptyCode] by auto
  then show "map_sum id (\<lambda>mat. (mat, make_variable_names_from_matrix mat)) (code_matrix code) \<noteq>
      Inl EmptyCode"
    by (cases "code_matrix code") simp_all
next
  assume short: "length code < 2"
  show "map_sum id (\<lambda>mat. (mat, make_variable_names_from_matrix mat)) (code_matrix code) =
          (if code = [] then Inl IndexError
           else Inr (\<lparr>nrows = 0, ncols = 0, rows = []\<rparr>, ''''))"
  proof (cases code)
    case Nil
    then show ?thesis by (simp add: code_matrix_empty)
  next
    case (Cons c rest)
    with short have "code = [c]" by simp
    then show ?thesis by (simp add: code_matrix_single names_of_empty_matrix)
  qed
qed

theorem short_code_no_EmptyCode_witness:
  "length [[0, 0 :: int]] < 2 \<and>
   code_matrix [[0, 0]] \<noteq> Inl EmptyCode \<and>
   map_sum id (\<lambda>mat. (mat, make_variable_names_from_matrix mat)) (code_matrix [[0, 0]]) =
     Inr (\<lparr>nrows = 0, ncols = 0, rows = []\<rparr>, '''')"
  using short_code_no_EmptyCode [of "[[0, 0]]"] by simp

text \<open>
  Claim C3 (as stated) fails on the one-codeword code \<open>[[0]]\<close>: the matrix and the names
  are built, and no \<open>EmptyCode\<close> error arises.
\<close>

theorem single_codeword_code_builds:
  "length [[0 :: int]] < 2 \<and>
   reverse_code [[0 :: int]] = Inr [[0]] \<and>
   code_matrix [[0]] = Inr \<lparr>nrows = 0, ncols = 0, rows = []\<rparr> \<and>
   make_variable_names_from_matrix \<lparr>nrows = 0, ncols = 0, rows = []\<rparr> = '''' \<and>
   code_matrix [[0]] \<noteq> Inl EmptyCode"
  by (simp add: code_matrix_single names_of_empty_matrix reverse_code_eq)

text \<open>
  Claim C4 (as amended). \<open>make_table_toric_degrees\<close> processes every code in input order,
  a code whose degree list is exactly \<open>[-1]\<close> gives no row, and every other code gives the
  row of its matrix, its Groebner basis and \<open>max\<close> of its degree list; a failing step ends
  the run with its error. When at least one row remains, the rows are returned in input
  order; when none remains (the input is empty, or every code is discarded) the final
  \<open>table(clean)\<close> raises IndexError. On a non-empty degree list \<open>max\<close> is the maximum of the
  list.
\<close>

theorem make_table_keeps_order:
  "make_table_toric_degrees alg code_list =
     (case spec_make_table alg code_list of
        Inl e \<Rightarrow> Inl e
      | Inr kept \<Rightarrow> if kept = [] then Inl IndexError else Inr kept) \<and>
   (degrees \<noteq> [] \<longrightarrow> py_max degrees = Inr (Max (set degrees)))"
  by (simp add: make_table_eq py_max_eq)

theorem make_table_keeps_order_witness:
  "make_table_toric_degrees toy_algebra
     [[[0, 0], [1, 0], [0, 1]], [[0, 0], [1, 0], [0, 1], [1, 1]]] =
     Inr [(\<lparr>nrows = 2, ncols = 3, rows = [[1, 0, 1], [1, 1, 0]]\<rparr>, 3, 2)] \<and>
   [2, 1 :: int] \<noteq> [] \<and> py_max [2, 1] = Inr 2"
  using make_table_keeps_order [of toy_algebra
      "[[[0, 0], [1, 0], [0, 1]], [[0, 0], [1, 0], [0, 1], [1, 1]]]" "[2, 1]"] toy_table
  by simp

text \<open>
  Claim C4 (as stated) fails where no row remains: on the empty list of codes, and on the
  list holding only the code \<open>[[0], [1]]\<close>, which is discarded, the specification's table is
  the empty sequence of rows while the run ends with IndexError.
\<close>

theorem make_table_without_rows_raises:
  "spec_make_table toy_algebra [] = Inr [] \<and>
   make_table_toric_degrees toy_algebra [] = Inl IndexError \<and>
   spec_make_table toy_algebra [[[0], [1]]] = Inr [] \<and>
   make_table_toric_degrees toy_algebra [[[0], [1]]] = Inl IndexError"
proof -
  have none: "spec_make_table toy_algebra [] = Inr []"
    by simp
  show ?thesis
    unfolding make_table_eq none toy_table_all_discarded by simp
qed

text \<open>
  Claim C5. On a non-empty sequence \<open>reverse_code\<close> returns the first element followed by
  the remaining elements in reverse order; in particular \<open>[a, b, c, d]\<close> becomes
  \<open>[a, d, c, b]\<close>.
\<close>

theorem reverse_code_keeps_first:
  "(code \<noteq> [] \<longrightarrow> reverse_code code = Inr (hd code # rev (tl code))) \<and>
   reverse_code [a, b, c, d] = Inr [a, d, c, b]"
  by (simp add: reverse_code_eq)

theorem reverse_code_keeps_first_witness:
  "[1, 2, 3 :: int] \<noteq> [] \<and> reverse_code [1, 2, 3 :: int] = Inr [1, 3, 2]"
proof -
  have ne: "[1, 2, 3 :: int] \<noteq> []" by simp
  from reverse_code_keeps_first [of "[1, 2, 3 :: int]" 0 0 0 0]
  have imp: "[1, 2, 3 :: int] \<noteq> [] \<longrightarrow>
      reverse_code [1, 2, 3 :: int] = Inr (hd [1, 2, 3] # rev (tl [1, 2, 3]))"
    by (rule conjunct1)
  from mp [OF imp ne] show ?thesis by simp
qed

text \<open>
  Claim C6. On a matrix with at least one column the returned string is the comma-joined
  list, with no trailing comma, of one name per column in column order, each name \<open>y\<close>
  followed by \<open>str\<close> of the entries of the column; when the entries are bits this is the
  naming rule of the specification, with one digit character per bit. The matrix with the
  columns \<open>[1,0]\<close> and \<open>[0,1]\<close> gives \<open>y10,y01\<close>.
\<close>

theorem variable_names_joined:
  "(0 < ncols mat \<longrightarrow>
      length (columns mat) = ncols mat \<and>
      make_variable_names_from_matrix mat =
        join_commas (map (\<lambda>col. CHR ''y'' # concat (map str col)) (columns mat))) \<and>
   (0 < ncols mat \<and> list_all (list_all (\<lambda>b. b = 0 \<or> b = 1)) (columns mat) \<longrightarrow>
      make_variable_names_from_matrix mat = spec_make_variable_names (columns mat)) \<and>
   columns \<lparr>nrows = 2, ncols = 2, rows = [[1, 0], [0, 1]]\<rparr> = [[1, 0], [0, 1]] \<and>
   make_variable_names_from_matrix \<lparr>nrows = 2, ncols = 2, rows = [[1, 0], [0, 1]]\<rparr> = ''y10,y01''"
proof (intro conjI impI)
  show "length (columns mat) = ncols mat"
    by (simp add: columns_def)
next
  show "make_variable_names_from_matrix mat =
        join_commas (map (\<lambda>col. CHR ''y'' # concat (map str col)) (columns mat))"
    by (rule make_variable_names_joined_str)
next
  assume "0 < ncols mat \<and> list_all (list_all (\<lambda>b. b = 0 \<or> b = 1)) (columns mat)"
  then show "make_variable_names_from_matrix mat = spec_make_variable_names (columns mat)"
    by (intro make_variable_names_eq) simp
next
  show "columns \<lparr>nrows = 2, ncols = 2, rows = [[1, 0], [0, 1]]\<rparr> = [[1, 0], [0, 1]]"
    by code_simp
next
  show "make_variable_names_from_matrix \<lparr>nrows = 2, ncols = 2, rows = [[1, 0], [0, 1]]\<rparr> =
        ''y10,y01''"
    by code_simp
qed

theorem variable_names_joined_witness:
  "0 < ncols \<lparr>nrows = 2, ncols = 3, rows = [[1, 0, 1], [1, 1, 0]]\<rparr> \<and>
   list_all (list_all (\<lambda>b. b = 0 \<or> b = 1))
     (columns \<lparr>nrows = 2, ncols = 3, rows = [[1, 0, 1], [1, 1, 0]]\<rparr>) \<and>
   make_variable_names_from_matrix \<lparr>nrows = 2, ncols = 3, rows = [[1, 0, 1], [1, 1, 0]]\<rparr> =
     ''y11,y01,y10''"
proof -
  let ?mat = "\<lparr>nrows = 2, ncols = 3, rows = [[1, 0, 1], [1, 1, 0]]\<rparr>"
  have cols: "columns ?mat = [[1, 1], [0, 1], [1, 0]]"
    by code_simp
  have hyp: "0 < ncols ?mat \<and> list_all (list_all (\<lambda>b. b = 0 \<or> b = 1)) (columns ?mat)"
    unfolding cols by simp
  have names: "spec_make_variable_names [[1, 1], [0, 1], [1, 0]] = ''y11,y01,y10''"
    by (simp add: spec_make_variable_names_def bit_digit_def)
  have "0 < ncols ?mat \<and> list_all (list_all (\<lambda>b. b = 0 \<or> b = 1)) (columns ?mat) \<longrightarrow>
        make_variable_names_from_matrix ?mat = spec_make_variable_names (columns ?mat)"
    by (rule conjunct1 [OF conjunct2 [OF variable_names_joined [of ?mat]]])
  from mp [OF this hyp] have "make_variable_names_from_matrix ?mat = ''y11,y01,y10''"
    unfolding cols names .
  with hyp show ?thesis by (intro conjI) simp_all
qed

text \<open>
  Claim C7. For every \<open>n \<ge> 1\<close> the enumerator returns, and every codeword of every
  returned code has length \<open>n\<close>.
\<close>

theorem codewords_have_length_n:
  assumes "1 \<le> n"
  shows "\<exists>codes. make_induct_one_pierced n = Some (Inr codes) \<and>
           (\<forall>code \<in> set codes. \<forall>codeword \<in> set code. int (length codeword) = n)"
proof -
  from make_induct_one_pierced_good [OF assms] obtain codes
    where ret: "make_induct_one_pierced n = Some (Inr codes)"
      and good: "list_all (good_code (nat n)) codes"
    by blast
  have "\<forall>code \<in> set codes. \<forall>codeword \<in> set code. int (length codeword) = n"
    using good assms by (auto simp: list_all_iff good_code_def)
  with ret show ?thesis by blast
qed

theorem codewords_have_length_n_witness:
  "(1::int) \<le> 2 \<and>
   make_induct_one_pierced 2 =
     Some (Inr [[[0, 0], [1, 0], [0, 1]], [[0, 0], [1, 0], [1, 1]],
                [[0, 0], [1, 0], [0, 1], [1, 1]]]) \<and>
   list_all (list_all (\<lambda>codeword. int (length codeword) = 2))
     [[[0, 0], [1, 0], [0, 1]], [[0, 0], [1, 0], [1, 1]], [[0, 0], [1, 0], [0, 1], [1, 1]]]"
  using codewords_have_length_n [of 2] make_induct_one_pierced_2 by simp

text \<open>
  Claim C8. For every \<open>n > 1\<close> the recursive call returns a list of codes, and the result
  for \<open>n\<close> starts with the zero-piercings of these codes in order, followed by the
  one-piercings: a smaller code \<open>C\<close> gives one zero-piercing per codeword \<open>d\<close> of \<open>C\<close>,
  namely every codeword of \<open>C\<close> with a trailing 0 followed by \<open>d\<close> with a trailing 1; these
  are \<open>|C|\<close> pairwise different codes.
\<close>

theorem zero_piercings_per_code:
  assumes "1 < n"
  shows "\<exists>smaller_codes.
           make_induct_one_pierced (n - 1) = Some (Inr smaller_codes) \<and>
           make_induct_one_pierced n =
             Some (Inr (concat (map (\<lambda>C. map (\<lambda>d. map (\<lambda>c. c @ [0]) C @ [d @ [1]]) C)
                                  smaller_codes) @
                        concat (map (one_piercings_of (nat (n - 1))) smaller_codes))) \<and>
           (\<forall>C \<in> set smaller_codes.
              length (map (\<lambda>d. map (\<lambda>c. c @ [0]) C @ [d @ [1]]) C) = card (set C) \<and>
              distinct (map (\<lambda>d. map (\<lambda>c. c @ [0]) C @ [d @ [1]]) C))"
proof -
  from assms have "1 \<le> n - 1" by simp
  from make_induct_one_pierced_good [OF this] obtain smaller_codes
    where ret: "make_induct_one_pierced (n - 1) = Some (Inr smaller_codes)"
      and good: "list_all (good_code (nat (n - 1))) smaller_codes"
    by blast
  have len: "list_all (list_all (\<lambda>w. int (length w) = n - 1)) smaller_codes"
    using good assms by (auto simp: list_all_iff good_code_def)
  from assms have "n \<noteq> 1" by simp
  from make_induct_one_pierced_step [OF this ret len]
  have step: "make_induct_one_pierced n =
      Some (Inr (concat (map (\<lambda>C. map (\<lambda>d. map (\<lambda>c. c @ [0]) C @ [d @ [1]]) C)
                           smaller_codes) @
                 concat (map (one_piercings_of (nat (n - 1))) smaller_codes)))"
    by (simp add: zero_piercings_of_def [abs_def] inflate_def)
  have "\<forall>C \<in> set smaller_codes.
          length (map (\<lambda>d. map (\<lambda>c. c @ [0]) C @ [d @ [1]]) C) = card (set C) \<and>
          distinct (map (\<lambda>d. map (\<lambda>c. c @ [0]) C @ [d @ [1]]) C)"
    using good by (auto simp: list_all_iff good_code_def distinct_card distinct_map inj_on_def)
  with ret step show ?thesis by blast
qed

theorem zero_piercings_per_code_witness:
  "(1::int) < 2 \<and>
   make_induct_one_pierced (2 - 1) = Some (Inr [[[0], [1]]]) \<and>
   make_induct_one_pierced 2 =
     Some (Inr ([[[0, 0], [1, 0], [0, 1]], [[0, 0], [1, 0], [1, 1]]] @
                [[[0, 0], [1, 0], [0, 1], [1, 1]]]))"
  using zero_piercings_per_code [of 2] make_induct_one_pierced_2
  by (simp add: make_induct_one_pierced.simps)

text \<open>
  Claim C9. For every \<open>n \<ge> 1\<close> the codewords of each returned code are pairwise
  distinct. (That a code may be repeated in the returned list is allowed by the claim and
  is not asserted here.)
\<close>

theorem codewords_distinct_in_code:
  assumes "1 \<le> n"
  shows "\<exists>codes. make_induct_one_pierced n = Some (Inr codes) \<and>
           (\<forall>code \<in> set codes. distinct code)"
proof -
  from make_induct_one_pierced_good [OF assms] obtain codes
    where ret: "make_induct_one_pierced n = Some (Inr codes)"
      and good: "list_all (good_code (nat n)) codes"
    by blast
  have "\<forall>code \<in> set codes. distinct code"
    using good by (simp add: list_all_iff good_code_def)
  with ret show ?thesis by blast
qed

theorem codewords_distinct_in_code_witness:
  "(1::int) \<le> 3 \<and> make_induct_one_pierced 3 = Some (Inr documented_codes_3) \<and>
   list_all distinct documented_codes_3"
proof -
  have "make_induct_one_pierced 3 = Some (Inr documented_codes_3)"
    by code_simp
  then show ?thesis
    using codewords_distinct_in_code [of 3] by (simp add: list_all_iff)
qed

text \<open>
  Claim C10. For every \<open>n \<ge> 1\<close> every returned code starts with the all-zero codeword of
  length \<open>n\<close>; \<open>reverse_code\<close> keeps it in front, and it does not occur again behind the
  front, so dropping the first element of the reversed code removes exactly this
  codeword.
\<close>

theorem first_codeword_all_zero:
  assumes "1 \<le> n"
  shows "\<exists>codes. make_induct_one_pierced n = Some (Inr codes) \<and>
           (\<forall>code \<in> set codes.
              code \<noteq> [] \<and> hd code = replicate (nat n) 0 \<and>
              (\<exists>reversed. reverse_code code = Inr reversed \<and>
                 hd reversed = replicate (nat n) 0 \<and>
                 replicate (nat n) 0 \<notin> set (drop 1 reversed)))"
proof -
  from make_induct_one_pierced_good [OF assms] obtain codes
    where ret: "make_induct_one_pierced n = Some (Inr codes)"
      and good: "list_all (good_code (nat n)) codes"
    by blast
  have "code \<noteq> [] \<and> hd code = replicate (nat n) 0 \<and>
        (\<exists>reversed. reverse_code code = Inr reversed \<and>
           hd reversed = replicate (nat n) 0 \<and>
           replicate (nat n) 0 \<notin> set (drop 1 reversed))"
    if "code \<in> set codes" for code
  proof -
    from good that have ne: "code \<noteq> []" and first: "hd code = replicate (nat n) 0"
      and dist: "distinct code"
      by (simp_all add: list_all_iff good_code_def)
    from ne dist have "hd code \<notin> set (tl code)"
      by (cases code) simp_all
    with ne first show ?thesis
      by (simp add: reverse_code_eq)
  qed
  with ret show ?thesis by blast
qed

theorem first_codeword_all_zero_witness:
  "(1::int) \<le> 2 \<and>
   make_induct_one_pierced 2 =
     Some (Inr [[[0, 0], [1, 0], [0, 1]], [[0, 0], [1, 0], [1, 1]],
                [[0, 0], [1, 0], [0, 1], [1, 1]]]) \<and>
   list_all (\<lambda>code. hd code = replicate (nat 2) 0)
     [[[0, 0], [1, 0], [0, 1]], [[0, 0], [1, 0], [1, 1]], [[0, 0], [1, 0], [0, 1], [1, 1]]] \<and>
   reverse_code [[0, 0], [1, 0], [0, 1], [1, 1 :: int]] = Inr [[0, 0], [1, 1], [0, 1], [1, 0]]"
  using first_codeword_all_zero [of 2] make_induct_one_pierced_2
  by (simp add: reverse_code_eq numeral_2_eq_2)

end
